theory Spec2Isabelle
  imports Main
begin

section \<open>JavaScript values\<close>

text \<open>
  A field of an entity holds a value of its declared TypeScript type, or \<open>null\<close>, or
  \<open>undefined\<close> (what a property read gives when the key is missing from the record).
  Numbers are the integers the server sends: identifiers, epoch seconds and result codes.
  The classifier's fields \<open>results\<close>, \<open>complete\<close> and \<open>started_at\<close> are declared
  \<open>number | null\<close>, \<open>boolean\<close> and \<open>number\<close>; strings and objects in their place are
  outside the declared types and outside this model.
\<close>

datatype 'a field = Undefined | Null | Val 'a

text \<open>The operator \<open>a ?? b\<close>: \<open>b\<close> when \<open>a\<close> is \<open>null\<close> or \<open>undefined\<close>, else \<open>a\<close>.\<close>

fun nullish :: "'a field \<Rightarrow> 'a \<Rightarrow> 'a" where
  "nullish Undefined d = d"
| "nullish Null d = d"
| "nullish (Val v) d = v"

section \<open>Result codes\<close>

definition SUCCESS :: int where "SUCCESS = 0"
definition WARNINGS :: int where "WARNINGS = 1"
definition FAILURE :: int where "FAILURE = 2"
definition SKIPPED :: int where "SKIPPED = 3"
definition EXCEPTION :: int where "EXCEPTION = 4"
definition RETRY :: int where "RETRY = 5"
definition CANCELLED :: int where "CANCELLED = 6"
definition PENDING :: int where "PENDING = 1000"
definition UNKNOWN :: int where "UNKNOWN = 1001"

text \<open>The label table \<open>intToResult\<close>, an object literal keyed by the nine codes.\<close>

definition intToResult :: "int \<rightharpoonup> string" where
  "intToResult = map_of
     [(SUCCESS, ''SUCCESS''),
      (WARNINGS, ''WARNINGS''),
      (FAILURE, ''FAILURE''),
      (SKIPPED, ''SKIPPED''),
      (EXCEPTION, ''EXCEPTION''),
      (RETRY, ''RETRY''),
      (CANCELLED, ''CANCELLED''),
      (PENDING, ''PENDING''),
      (UNKNOWN, ''UNKNOWN'')]"

text \<open>
  The test \<open>(x !== null) && x in intToResult\<close> on a \<open>results\<close> field, giving the
  number when the test holds. \<open>null\<close> fails the first conjunct; \<open>undefined\<close> passes it
  and is looked up under the property name \<open>undefined\<close>, which the table does not have; a
  number is looked up under its decimal name.
\<close>

fun known_results :: "int field \<Rightarrow> int option" where
  "known_results Null = None"
| "known_results Undefined = None"
| "known_results (Val r) = (if intToResult r \<noteq> None then Some r else None)"

section \<open>Entities read by the classifier\<close>

text \<open>
  \<open>Build | Step\<close> as the classifier sees it: the three fields it reads; every other field
  of the entity is the extension part of the record. \<open>null\<close> is \<open>None\<close>.
\<close>

record BuildOrStep =
  results :: "int field"
  complete :: "bool field"
  started_at :: "int field"

fun getBuildOrStepResults :: "'a BuildOrStep_scheme option \<Rightarrow> int \<Rightarrow> int" where
  "getBuildOrStepResults None unknownResults = unknownResults"
| "getBuildOrStepResults (Some buildOrStep) unknownResults =
     (case known_results (results buildOrStep) of
        Some r \<Rightarrow> r
      | None \<Rightarrow>
          if complete buildOrStep = Val False \<and> 0 < nullish (started_at buildOrStep) 0
          then PENDING
          else unknownResults)"

text \<open>
  A template literal renders the value of \<open>intToResult[k]\<close>: the label, or the text
  \<open>undefined\<close> for a key the table does not have.
\<close>

fun template :: "string option \<Rightarrow> string" where
  "template None = ''undefined''"
| "template (Some s) = s"

fun results2class :: "'a BuildOrStep_scheme option \<Rightarrow> string option \<Rightarrow> string" where
  "results2class buildOrStep pulse =
     (let results = getBuildOrStepResults buildOrStep UNKNOWN;
          ret = ''results_'' @ template (intToResult results)
      in case pulse of
           Some p \<Rightarrow> if results = PENDING then ret @ '' '' @ p else ret
         | None \<Rightarrow> ret)"

text \<open>
  In \<open>results2text\<close> the membership test and the read \<open>intToResult[results]\<close> look at
  the same table entry: the label is assigned exactly when the entry exists.
\<close>

fun results2text :: "'a BuildOrStep_scheme option \<Rightarrow> string" where
  "results2text None = ''...''"
| "results2text (Some objWithResults) =
     (case results objWithResults of
        Val r \<Rightarrow> (case intToResult r of Some label \<Rightarrow> label | None \<Rightarrow> ''...'')
      | Null \<Rightarrow> ''...''
      | Undefined \<Rightarrow> ''...'')"

section \<open>Objects and the heap\<close>

text \<open>
  The values a record can carry: \<open>undefined\<close>, \<open>null\<close>, a boolean, a number, a string
  or a reference to an object. An object is the list of its own properties in insertion
  order; the heap is the list of the objects allocated so far, a reference being an index
  into it.
\<close>

type_synonym addr = nat

datatype prim = Bool bool | Num int | Str string | Ref addr

type_synonym jsval = "prim field"

type_synonym jsobj = "(string \<times> jsval) list"

type_synonym heap = "jsobj list"

text \<open>Reading \<open>o.k\<close>: the own property, \<open>undefined\<close> when there is none.\<close>

definition get_prop :: "jsobj \<Rightarrow> string \<Rightarrow> jsval" where
  "get_prop obj k = (case map_of obj k of None \<Rightarrow> Undefined | Some v \<Rightarrow> v)"

text \<open>
  The assignment \<open>o.k = v\<close>: an existing property keeps its place, a new one goes last.
\<close>

fun set_prop :: "jsobj \<Rightarrow> string \<Rightarrow> jsval \<Rightarrow> jsobj" where
  "set_prop [] k v = [(k, v)]"
| "set_prop ((k', v') # ps) k v =
     (if k' = k then (k, v) # ps else (k', v') # set_prop ps k v)"

text \<open>An object literal allocates a new object and evaluates to its reference.\<close>

definition alloc :: "heap \<Rightarrow> jsobj \<Rightarrow> heap \<times> jsval" where
  "alloc h obj = (h @ [obj], Val (Ref (length h)))"

section \<open>The Build entity\<close>

text \<open>
  A \<open>Build\<close> instance is an object: \<open>this\<close> is its property list, which also holds
  whatever the base class keeps. The raw record \<open>object\<close> is given by its property list
  too; \<open>update\<close> only reads it. The one allocation is the default \<open>{}\<close> of
  \<open>object.properties ?? {}\<close>, evaluated only when the left operand is null or undefined.
\<close>

fun properties_or_empty :: "heap \<Rightarrow> jsval \<Rightarrow> heap \<times> jsval" where
  "properties_or_empty h Undefined = alloc h []"
| "properties_or_empty h Null = alloc h []"
| "properties_or_empty h (Val v) = (h, Val v)"

definition update :: "heap \<Rightarrow> jsobj \<Rightarrow> jsobj \<Rightarrow> heap \<times> jsobj" where
  "update h this object =
     (let this = set_prop this ''buildid'' (get_prop object ''buildid'');
          this = set_prop this ''number'' (get_prop object ''number'');
          this = set_prop this ''builderid'' (get_prop object ''builderid'');
          this = set_prop this ''buildrequestid'' (get_prop object ''buildrequestid'');
          this = set_prop this ''workerid'' (get_prop object ''workerid'');
          this = set_prop this ''masterid'' (get_prop object ''masterid'');
          this = set_prop this ''started_at'' (get_prop object ''started_at'');
          this = set_prop this ''complete_at'' (get_prop object ''complete_at'');
          this = set_prop this ''complete'' (get_prop object ''complete'');
          this = set_prop this ''results'' (get_prop object ''results'');
          this = set_prop this ''state_string'' (get_prop object ''state_string'');
          (h, p) = properties_or_empty h (get_prop object ''properties'')
      in (h, set_prop this ''properties'' p))"

text \<open>
  The constructor: \<open>base\<close> is the instance as the base class constructor leaves it,
  then \<open>this.update(object)\<close>.
\<close>

definition constructor :: "heap \<Rightarrow> jsobj \<Rightarrow> jsobj \<Rightarrow> heap \<times> jsobj" where
  "constructor h base object = update h base object"

text \<open>\<open>toObject\<close> returns a new record, given here by its property list.\<close>

definition toObject :: "jsobj \<Rightarrow> jsobj" where
  "toObject this =
     [(''buildid'', get_prop this ''buildid''),
      (''number'', get_prop this ''number''),
      (''builderid'', get_prop this ''builderid''),
      (''buildrequestid'', get_prop this ''buildrequestid''),
      (''workerid'', get_prop this ''workerid''),
      (''masterid'', get_prop this ''masterid''),
      (''started_at'', get_prop this ''started_at''),
      (''complete_at'', get_prop this ''complete_at''),
      (''complete'', get_prop this ''complete''),
      (''state_string'', get_prop this ''state_string''),
      (''results'', get_prop this ''results''),
      (''properties'', get_prop this ''properties'')]"

text \<open>The keys of the record \<open>toObject\<close> returns, in the order of its literal.\<close>

definition tracked_fields :: "string list" where
  "tracked_fields =
     [''buildid'', ''number'', ''builderid'', ''buildrequestid'', ''workerid'', ''masterid'',
      ''started_at'', ''complete_at'', ''complete'', ''state_string'', ''results'',
      ''properties'']"

section \<open>The classifier over a store\<close>

text \<open>
  The same function with the program state written out. The store holds every object
  (the entity's three fields and, in the extension part, all its other fields) and
  whatever global state there is. \<open>buildOrStep\<close> is a reference or \<open>null\<close>. A
  property read takes the store and hands it on; an assignment or a cache would hand on
  a changed store. The body of \<open>getBuildOrStepResults\<close> has three reads, in the order
  and under the conditions of the source (\<open>started_at\<close> only after
  \<open>complete === false\<close>), and no assignment. \<open>intToResult\<close> and \<open>PENDING\<close> are
  \<open>const\<close> bindings of the module; the table is not exported and the module never
  writes to it, so they are constants here too.
\<close>

record ('m, 'g) store =
  objects :: "addr \<Rightarrow> 'm BuildOrStep_scheme"
  globals :: 'g

definition read_field ::
  "('m BuildOrStep_scheme \<Rightarrow> 'v) \<Rightarrow> addr \<Rightarrow> ('m, 'g) store \<Rightarrow> 'v \<times> ('m, 'g) store" where
  "read_field field a s = (field (objects s a), s)"

definition getBuildOrStepResults_in_store ::
  "addr option \<Rightarrow> int \<Rightarrow> ('m, 'g) store \<Rightarrow> int \<times> ('m, 'g) store" where
  "getBuildOrStepResults_in_store buildOrStep unknownResults s =
     (case buildOrStep of
        None \<Rightarrow> (unknownResults, s)
      | Some a \<Rightarrow>
          (let (res, s) = read_field results a s in
           case known_results res of
             Some r \<Rightarrow> (r, s)
           | None \<Rightarrow>
               (let (c, s) = read_field complete a s in
                if c = Val False
                then (let (t, s) = read_field started_at a s in
                      if 0 < nullish t 0 then (PENDING, s) else (unknownResults, s))
                else (unknownResults, s))))"

text \<open>Calling the function \<open>n\<close> times in a row, each call on the store the last one left.\<close>

fun repeat_calls ::
  "nat \<Rightarrow> addr option \<Rightarrow> int \<Rightarrow> ('m, 'g) store \<Rightarrow> int list \<times> ('m, 'g) store" where
  "repeat_calls 0 buildOrStep unknownResults s = ([], s)"
| "repeat_calls (Suc n) buildOrStep unknownResults s =
     (let (r, s) = getBuildOrStepResults_in_store buildOrStep unknownResults s;
          (rs, s) = repeat_calls n buildOrStep unknownResults s
      in (r # rs, s))"

section \<open>Notions of the specification\<close>

text \<open>
  Deep equality of two values in a heap, followed to a depth of at most \<open>n\<close> references:
  equal values are deep-equal; two references are deep-equal when their objects have the
  same keys and deep-equal values under each key. More depth only relates more values.
\<close>

definition same_record :: "(jsval \<Rightarrow> jsval \<Rightarrow> bool) \<Rightarrow> jsobj \<Rightarrow> jsobj \<Rightarrow> bool" where
  "same_record R a b =
     (set (map fst a) = set (map fst b) \<and>
      list_all (\<lambda>k. R (get_prop a k) (get_prop b k)) (map fst a))"

primrec deep_equal :: "nat \<Rightarrow> heap \<Rightarrow> jsval \<Rightarrow> jsval \<Rightarrow> bool" where
  "deep_equal 0 h x y = (x = y)"
| "deep_equal (Suc n) h x y =
     (x = y \<or>
      (case (x, y) of
         (Val (Ref a), Val (Ref b)) \<Rightarrow>
           a < length h \<and> b < length h \<and> same_record (deep_equal n h) (h ! a) (h ! b)
       | _ \<Rightarrow> False))"

text \<open>The input record shape consumed by \<open>Build.update\<close>, with \<open>properties\<close> optional.\<close>

fun is_number :: "jsval \<Rightarrow> bool" where
  "is_number (Val (Num n)) = True"
| "is_number v = False"

fun is_boolean :: "jsval \<Rightarrow> bool" where
  "is_boolean (Val (Bool b)) = True"
| "is_boolean v = False"

fun is_string :: "jsval \<Rightarrow> bool" where
  "is_string (Val (Str s)) = True"
| "is_string v = False"

fun is_object :: "heap \<Rightarrow> jsval \<Rightarrow> bool" where
  "is_object h (Val (Ref a)) = (a < length h)"
| "is_object h v = False"

definition well_formed_raw :: "heap \<Rightarrow> jsobj \<Rightarrow> bool" where
  "well_formed_raw h r =
     (distinct (map fst r) \<and>
      set (map fst r) \<subseteq> set tracked_fields \<and>
      is_number (get_prop r ''buildid'') \<and>
      is_number (get_prop r ''number'') \<and>
      is_number (get_prop r ''builderid'') \<and>
      (get_prop r ''buildrequestid'' = Null \<or> is_number (get_prop r ''buildrequestid'')) \<and>
      ''buildrequestid'' \<in> set (map fst r) \<and>
      is_number (get_prop r ''workerid'') \<and>
      is_number (get_prop r ''masterid'') \<and>
      is_number (get_prop r ''started_at'') \<and>
      (get_prop r ''complete_at'' = Null \<or> is_number (get_prop r ''complete_at'')) \<and>
      ''complete_at'' \<in> set (map fst r) \<and>
      is_boolean (get_prop r ''complete'') \<and>
      is_string (get_prop r ''state_string'') \<and>
      (get_prop r ''results'' = Null \<or> is_number (get_prop r ''results'')) \<and>
      ''results'' \<in> set (map fst r) \<and>
      (if ''properties'' \<in> set (map fst r)
       then is_object h (get_prop r ''properties'') else True))"

text \<open>
  The data-model invariant: \<open>complete_at\<close> is non-null only when \<open>complete\<close> is true,
  and \<open>results\<close> is non-null only when \<open>complete\<close> is true.
\<close>

definition data_model_invariant :: "jsobj \<Rightarrow> bool" where
  "data_model_invariant b =
     ((if get_prop b ''complete_at'' \<noteq> Null then get_prop b ''complete'' = Val (Bool True)
       else True) \<and>
      (if get_prop b ''results'' \<noteq> Null then get_prop b ''complete'' = Val (Bool True)
       else True))"

text \<open>
  Three records of the input shape: a finished build with a \<open>properties\<close> object, a
  running build without \<open>properties\<close>, and an unfinished build that already carries a
  completion time and a result code.
\<close>

definition raw_finished :: jsobj where
  "raw_finished =
     [(''buildid'', Val (Num 7)), (''number'', Val (Num 1)), (''builderid'', Val (Num 2)),
      (''buildrequestid'', Val (Num 9)), (''workerid'', Val (Num 3)),
      (''masterid'', Val (Num 4)), (''started_at'', Val (Num 100)),
      (''complete_at'', Val (Num 200)), (''complete'', Val (Bool True)),
      (''state_string'', Val (Str ''finished'')), (''results'', Val (Num 0)),
      (''properties'', Val (Ref 0))]"

definition raw_without_properties :: jsobj where
  "raw_without_properties =
     [(''buildid'', Val (Num 7)), (''number'', Val (Num 1)), (''builderid'', Val (Num 2)),
      (''buildrequestid'', Null), (''workerid'', Val (Num 3)), (''masterid'', Val (Num 4)),
      (''started_at'', Val (Num 100)), (''complete_at'', Null),
      (''complete'', Val (Bool False)), (''state_string'', Val (Str ''building'')),
      (''results'', Null)]"

definition raw_unfinished_with_results :: jsobj where
  "raw_unfinished_with_results =
     [(''buildid'', Val (Num 7)), (''number'', Val (Num 1)), (''builderid'', Val (Num 2)),
      (''buildrequestid'', Null), (''workerid'', Val (Num 3)), (''masterid'', Val (Num 4)),
      (''started_at'', Val (Num 100)), (''complete_at'', Val (Num 5)),
      (''complete'', Val (Bool False)), (''state_string'', Val (Str ''building'')),
      (''results'', Val (Num 0)), (''properties'', Val (Ref 0))]"

section \<open>The label table and the classification of results\<close>

lemma intToResult_ran:
  "ran intToResult = {''SUCCESS'', ''WARNINGS'', ''FAILURE'', ''SKIPPED'', ''EXCEPTION'',
     ''RETRY'', ''CANCELLED'', ''PENDING'', ''UNKNOWN''}"
  unfolding intToResult_def SUCCESS_def WARNINGS_def FAILURE_def SKIPPED_def
      EXCEPTION_def RETRY_def CANCELLED_def PENDING_def UNKNOWN_def
  by (subst ran_distinct) (simp_all add: insert_commute)

lemma known_results_Some:
  "known_results x = Some r \<longleftrightarrow> x = Val r \<and> r \<in> dom intToResult"
  by (cases x) (auto simp: dom_def)

lemma known_results_None:
  "known_results x = None \<longleftrightarrow> \<not> (\<exists>r. x = Val r \<and> r \<in> dom intToResult)"
  by (cases x) (auto simp: dom_def)

text \<open>
  C1. \<open>getBuildOrStepResults\<close> follows the four-step precedence rule: a null entity gives
  the fallback; else a \<open>results\<close> that is non-null and a key of the label table is
  returned as it is; else an entity with \<open>complete === false\<close> and a start time (absent
  counting as 0) above 0 gives \<open>PENDING\<close>; else the fallback.
\<close>

theorem getBuildOrStepResults_precedence:
  fixes e :: "'a BuildOrStep_scheme"
  shows "getBuildOrStepResults (None :: 'a BuildOrStep_scheme option) fb = fb \<and>
    (results e \<noteq> Null \<and> (\<exists>r. results e = Val r \<and> r \<in> dom intToResult) \<longrightarrow>
       Val (getBuildOrStepResults (Some e) fb) = results e) \<and>
    (\<not> (results e \<noteq> Null \<and> (\<exists>r. results e = Val r \<and> r \<in> dom intToResult)) \<and>
     complete e = Val False \<and> 0 < (case started_at e of Val t \<Rightarrow> t | _ \<Rightarrow> 0) \<longrightarrow>
       getBuildOrStepResults (Some e) fb = PENDING) \<and>
    (\<not> (results e \<noteq> Null \<and> (\<exists>r. results e = Val r \<and> r \<in> dom intToResult)) \<and>
     \<not> (complete e = Val False \<and> 0 < (case started_at e of Val t \<Rightarrow> t | _ \<Rightarrow> 0)) \<longrightarrow>
       getBuildOrStepResults (Some e) fb = fb)"
proof -
  have start: "nullish (started_at e) 0 = (case started_at e of Val t \<Rightarrow> t | _ \<Rightarrow> 0)"
    by (cases "started_at e") simp_all
  show ?thesis
  proof (cases "known_results (results e)")
    case None
    then have no: "\<not> (\<exists>r. results e = Val r \<and> r \<in> dom intToResult)"
      by (simp add: known_results_None)
    have "getBuildOrStepResults (Some e) fb =
       (if complete e = Val False \<and> 0 < (case started_at e of Val t \<Rightarrow> t | _ \<Rightarrow> 0)
        then PENDING else fb)"
      using None start by simp
    with no show ?thesis by (auto simp del: getBuildOrStepResults.simps(2))
  next
    case (Some r)
    then have yes: "results e = Val r \<and> r \<in> dom intToResult"
      by (simp add: known_results_Some)
    have "getBuildOrStepResults (Some e) fb = r"
      using Some by simp
    with yes show ?thesis by (simp del: getBuildOrStepResults.simps(2))
  qed
qed


lemma intToResult_dom: "dom intToResult = {0, 1, 2, 3, 4, 5, 6, 1000, 1001}"
  by (auto simp: intToResult_def SUCCESS_def WARNINGS_def FAILURE_def SKIPPED_def
      EXCEPTION_def RETRY_def CANCELLED_def PENDING_def UNKNOWN_def split: if_splits)

lemma getBuildOrStepResults_cases:
  "getBuildOrStepResults e fb \<in> dom intToResult \<or> getBuildOrStepResults e fb = fb"
proof (cases e)
  case None
  then show ?thesis by simp
next
  case (Some b)
  show ?thesis
  proof (cases "known_results (results b)")
    case None
    with Some show ?thesis by (simp add: intToResult_dom PENDING_def)
  next
    case (Some r)
    then have "r \<in> dom intToResult" by (simp add: known_results_Some)
    with Some \<open>e = Some b\<close> show ?thesis by simp
  qed
qed

lemma getBuildOrStepResults_UNKNOWN_dom:
  "getBuildOrStepResults e UNKNOWN \<in> dom intToResult"
  using getBuildOrStepResults_cases [of e UNKNOWN]
  by (auto simp: intToResult_dom UNKNOWN_def simp del: getBuildOrStepResults.simps)

text \<open>The same at concrete entities.\<close>

theorem getBuildOrStepResults_precedence_witness:
  "getBuildOrStepResults (None :: BuildOrStep option) UNKNOWN = UNKNOWN \<and>
   getBuildOrStepResults
     (Some \<lparr>results = Val 2, complete = Val True, started_at = Val 1\<rparr>) UNKNOWN = 2 \<and>
   getBuildOrStepResults
     (Some \<lparr>results = Null, complete = Val False, started_at = Val 5\<rparr>) UNKNOWN = PENDING \<and>
   getBuildOrStepResults
     (Some \<lparr>results = Null, complete = Val False, started_at = Val 0\<rparr>) UNKNOWN = UNKNOWN \<and>
   getBuildOrStepResults
     (Some \<lparr>results = Val 999, complete = Val True, started_at = Val 1\<rparr>) UNKNOWN = UNKNOWN"
  using
    getBuildOrStepResults_precedence
      [where fb = UNKNOWN and e = "\<lparr>results = Val 2, complete = Val True, started_at = Val 1\<rparr>"]
    getBuildOrStepResults_precedence
      [where fb = UNKNOWN and e = "\<lparr>results = Null, complete = Val False, started_at = Val 5\<rparr>"]
    getBuildOrStepResults_precedence
      [where fb = UNKNOWN and e = "\<lparr>results = Null, complete = Val False, started_at = Val 0\<rparr>"]
    getBuildOrStepResults_precedence
      [where fb = UNKNOWN and e = "\<lparr>results = Val 999, complete = Val True, started_at = Val 1\<rparr>"]
  by (simp add: intToResult_dom del: getBuildOrStepResults.simps)

text \<open>
  C4. \<open>results2text\<close> returns the label of the entity's results code when the code is
  non-null and in the label table (0 gives \<open>SUCCESS\<close>), and the text \<open>...\<close> in every
  other case: a null entity, null or undefined results, a code outside the table. No
  fallback constant is read, and the function is total: no branch of it can throw.
\<close>

theorem results2text_label_or_ellipsis:
  fixes e :: "'a BuildOrStep_scheme"
  shows "results2text (None :: 'a BuildOrStep_scheme option) = ''...'' \<and>
    (results e = Val r \<and> intToResult r = Some label \<longrightarrow>
       results2text (Some e) = label) \<and>
    (results e = Null \<or> results e = Undefined \<or>
     (\<exists>r. results e = Val r \<and> r \<notin> dom intToResult) \<longrightarrow>
       results2text (Some e) = ''...'') \<and>
    intToResult 0 = Some ''SUCCESS''"
  by (auto simp: dom_def intToResult_def SUCCESS_def)

text \<open>The same at concrete entities.\<close>

theorem results2text_label_or_ellipsis_witness:
  "results2text (Some \<lparr>results = Val 0, complete = Val True, started_at = Val 1\<rparr>)
     = ''SUCCESS'' \<and>
   results2text (Some \<lparr>results = Null, complete = Val False, started_at = Val 1\<rparr>)
     = ''...'' \<and>
   results2text (Some \<lparr>results = Val 999, complete = Val True, started_at = Val 1\<rparr>)
     = ''...''"
  using
    results2text_label_or_ellipsis
      [where e = "\<lparr>results = Val 0, complete = Val True, started_at = Val 1\<rparr>"
         and r = 0 and label = "''SUCCESS''"]
    results2text_label_or_ellipsis
      [where e = "\<lparr>results = Null, complete = Val False, started_at = Val 1\<rparr>"]
    results2text_label_or_ellipsis
      [where e = "\<lparr>results = Val 999, complete = Val True, started_at = Val 1\<rparr>"]
  by (simp add: intToResult_dom del: results2text.simps)

text \<open>
  C5. \<open>results2class\<close> returns \<open>results_\<close> followed by the label of
  \<open>getBuildOrStepResults(entity, UNKNOWN)\<close>, and appends a space and the pulse token
  exactly when that classification is \<open>PENDING\<close> and the pulse is not null.
\<close>

theorem results2class_label_and_pulse:
  "\<exists>label. intToResult (getBuildOrStepResults e UNKNOWN) = Some label \<and>
     (\<forall>p. getBuildOrStepResults e UNKNOWN = PENDING \<and> pulse = Some p \<longrightarrow>
        results2class e pulse = ''results_'' @ label @ '' '' @ p) \<and>
     (getBuildOrStepResults e UNKNOWN \<noteq> PENDING \<or> pulse = None \<longrightarrow>
        results2class e pulse = ''results_'' @ label)"
proof -
  obtain label where l: "intToResult (getBuildOrStepResults e UNKNOWN) = Some label"
    using getBuildOrStepResults_UNKNOWN_dom [of e] by blast
  then show ?thesis
    by (cases pulse) (auto simp add: Let_def simp del: getBuildOrStepResults.simps)
qed

text \<open>The same at concrete entities.\<close>

theorem results2class_label_and_pulse_witness:
  "results2class
     (Some \<lparr>results = Null, complete = Val False, started_at = Val 5\<rparr>) (Some ''pulse'')
     = ''results_PENDING pulse'' \<and>
   results2class
     (Some \<lparr>results = Val 0, complete = Val True, started_at = Val 5\<rparr>) (Some ''pulse'')
     = ''results_SUCCESS'' \<and>
   results2class
     (Some \<lparr>results = Null, complete = Val False, started_at = Val 5\<rparr>) None
     = ''results_PENDING''"
proof -
  have a: "getBuildOrStepResults
      (Some \<lparr>results = Null, complete = Val False, started_at = Val 5\<rparr>) UNKNOWN = PENDING"
    by simp
  have b: "getBuildOrStepResults
      (Some \<lparr>results = Val 0, complete = Val True, started_at = Val 5\<rparr>) UNKNOWN = SUCCESS"
    by (simp add: intToResult_def SUCCESS_def)
  have t: "intToResult PENDING = Some ''PENDING''" "intToResult SUCCESS = Some ''SUCCESS''"
    "SUCCESS \<noteq> PENDING"
    by (simp_all add: intToResult_def SUCCESS_def WARNINGS_def FAILURE_def SKIPPED_def
      EXCEPTION_def RETRY_def CANCELLED_def PENDING_def UNKNOWN_def)
  show ?thesis
    using
      results2class_label_and_pulse
        [of "Some \<lparr>results = Null, complete = Val False, started_at = Val 5\<rparr>"
            "Some ''pulse''"]
      results2class_label_and_pulse
        [of "Some \<lparr>results = Val 0, complete = Val True, started_at = Val 5\<rparr>"
            "Some ''pulse''"]
      results2class_label_and_pulse
        [of "Some \<lparr>results = Null, complete = Val False, started_at = Val 5\<rparr>" None]
    unfolding a b
    by (auto simp: t simp del: results2class.simps getBuildOrStepResults.simps)
qed

lemma in_store_unchanged:
  "snd (getBuildOrStepResults_in_store e fb s) = s"
  by (simp add: getBuildOrStepResults_in_store_def read_field_def Let_def
      split: option.splits)

lemma in_store_result:
  "fst (getBuildOrStepResults_in_store e fb s)
     = getBuildOrStepResults (map_option (objects s) e) fb"
  by (cases e)
    (simp_all add: getBuildOrStepResults_in_store_def read_field_def Let_def
      split: option.splits)

lemma repeat_calls_eq:
  "repeat_calls n e fb s = (replicate n (fst (getBuildOrStepResults_in_store e fb s)), s)"
proof (induction n)
  case 0
  show ?case by simp
next
  case (Suc n)
  have "getBuildOrStepResults_in_store e fb s
      = (fst (getBuildOrStepResults_in_store e fb s), s)"
    by (simp add: prod_eq_iff in_store_unchanged)
  then show ?case
    using Suc by (simp add: Let_def split_def in_store_unchanged)
qed

text \<open>
  C7. \<open>getBuildOrStepResults\<close> is a pure function of three fields. Run on a store, it
  hands the store on unchanged (it assigns nothing and caches nothing), for a reference
  and for \<open>null\<close>. Two calls on non-null entities that agree on \<open>results\<close>,
  \<open>complete\<close> and \<open>started_at\<close> return the same result for every fallback, whatever
  the entities' other fields, the other objects and the global state of the two stores
  are. Any number of calls in a row return that one result and leave the store as it
  was. The result is the one of the function on the entity's record.
\<close>

theorem getBuildOrStepResults_pure_three_fields:
  fixes s :: "('m, 'g) store" and s' :: "('n, 'k) store"
  assumes "results (objects s a) = results (objects s' a')"
    and "complete (objects s a) = complete (objects s' a')"
    and "started_at (objects s a) = started_at (objects s' a')"
  shows "fst (getBuildOrStepResults_in_store (Some a) fb s)
      = fst (getBuildOrStepResults_in_store (Some a') fb s') \<and>
    snd (getBuildOrStepResults_in_store (Some a) fb s) = s \<and>
    snd (getBuildOrStepResults_in_store None fb s) = s \<and>
    repeat_calls n (Some a) fb s
      = (replicate n (fst (getBuildOrStepResults_in_store (Some a) fb s)), s) \<and>
    fst (getBuildOrStepResults_in_store (Some a) fb s)
      = getBuildOrStepResults (Some (objects s a)) fb"
proof -
  have "getBuildOrStepResults (Some (objects s a)) fb
      = getBuildOrStepResults (Some (objects s' a')) fb"
    unfolding getBuildOrStepResults.simps assms by (rule refl)
  then have "fst (getBuildOrStepResults_in_store (Some a) fb s)
      = fst (getBuildOrStepResults_in_store (Some a') fb s')"
    by (simp only: in_store_result option.map)
  moreover have "fst (getBuildOrStepResults_in_store (Some a) fb s)
      = getBuildOrStepResults (Some (objects s a)) fb"
    by (simp only: in_store_result option.map)
  ultimately show ?thesis
    using in_store_unchanged [of "Some a" fb s] in_store_unchanged [of None fb s]
      repeat_calls_eq [of n "Some a" fb s]
    by blast
qed

text \<open>The same at two stores that differ in the other fields and in the global state.\<close>

theorem getBuildOrStepResults_pure_three_fields_witness:
  "fst (getBuildOrStepResults_in_store (Some 0) 3
      \<lparr>objects = (\<lambda>a. \<lparr>results = Null, complete = Val False, started_at = Val 5,
                    \<dots> = (7::nat)\<rparr>), globals = ''x''\<rparr>)
   = fst (getBuildOrStepResults_in_store (Some 1) 3
      \<lparr>objects = (\<lambda>a. \<lparr>results = Null, complete = Val False, started_at = Val 5,
                    \<dots> = ''step''\<rparr>), globals = (3::int)\<rparr>) \<and>
   repeat_calls 3 (Some 0) 3
      \<lparr>objects = (\<lambda>a. \<lparr>results = Null, complete = Val False, started_at = Val 5,
                    \<dots> = (7::nat)\<rparr>), globals = ''x''\<rparr>
   = ([PENDING, PENDING, PENDING],
      \<lparr>objects = (\<lambda>a. \<lparr>results = Null, complete = Val False, started_at = Val 5,
                    \<dots> = (7::nat)\<rparr>), globals = ''x''\<rparr>)"
  using getBuildOrStepResults_pure_three_fields
    [where s = "\<lparr>objects = (\<lambda>a. \<lparr>results = Null, complete = Val False,
                    started_at = Val 5, \<dots> = (7::nat)\<rparr>), globals = ''x''\<rparr>"
       and a = 0
       and s' = "\<lparr>objects = (\<lambda>a. \<lparr>results = Null, complete = Val False,
                    started_at = Val 5, \<dots> = ''step''\<rparr>), globals = (3::int)\<rparr>"
       and a' = 1 and fb = 3 and n = 3]
  by (simp add: numeral_3_eq_3)

lemma intToResult_card: "card (dom intToResult) = 9"
  unfolding intToResult_dom by simp

lemma intToResult_synthetic:
  "intToResult PENDING = Some ''PENDING''" "intToResult UNKNOWN = Some ''UNKNOWN''"
  by (simp_all add: intToResult_def SUCCESS_def WARNINGS_def FAILURE_def SKIPPED_def
      EXCEPTION_def RETRY_def CANCELLED_def PENDING_def UNKNOWN_def)

text \<open>
  C8. The membership test uses the whole nine-entry table: an entity whose \<open>results\<close> is
  one of the client-only codes \<open>PENDING = 1000\<close> or \<open>UNKNOWN = 1001\<close> gets that code
  back, whatever \<open>complete\<close> and the fallback are.
\<close>

theorem synthetic_codes_returned_verbatim:
  fixes e :: "'a BuildOrStep_scheme"
  assumes "results e = Val PENDING \<or> results e = Val UNKNOWN"
  shows "Val (getBuildOrStepResults (Some e) fb) = results e \<and>
    PENDING = 1000 \<and> UNKNOWN = 1001 \<and> card (dom intToResult) = 9"
proof -
  have g: "Val (getBuildOrStepResults (Some e) fb) = results e"
    using assms
  proof
    assume "results e = Val PENDING"
    then show ?thesis by (simp add: intToResult_synthetic)
  next
    assume "results e = Val UNKNOWN"
    then show ?thesis by (simp add: intToResult_synthetic)
  qed
  have c: "PENDING = 1000" "UNKNOWN = 1001"
    by (simp_all add: PENDING_def UNKNOWN_def)
  from g c intToResult_card show ?thesis
    by (intro conjI)
qed

text \<open>The same at concrete entities.\<close>

theorem synthetic_codes_returned_verbatim_witness:
  "getBuildOrStepResults
     (Some \<lparr>results = Val 1000, complete = Val True, started_at = Val 1\<rparr>) 0 = 1000 \<and>
   getBuildOrStepResults
     (Some \<lparr>results = Val 1001, complete = Val True, started_at = Val 1\<rparr>) 0 = 1001"
proof -
  have a: "results \<lparr>results = Val 1000, complete = Val True, started_at = Val 1\<rparr>
      = Val PENDING \<or>
    results \<lparr>results = Val 1000, complete = Val True, started_at = Val 1\<rparr>
      = Val UNKNOWN"
    by (simp add: PENDING_def)
  have b: "results \<lparr>results = Val 1001, complete = Val True, started_at = Val 1\<rparr>
      = Val PENDING \<or>
    results \<lparr>results = Val 1001, complete = Val True, started_at = Val 1\<rparr>
      = Val UNKNOWN"
    by (simp add: UNKNOWN_def)
  from synthetic_codes_returned_verbatim [OF a, THEN conjunct1, of 0]
    synthetic_codes_returned_verbatim [OF b, THEN conjunct1, of 0]
  show ?thesis
    by (simp del: getBuildOrStepResults.simps)
qed

text \<open>
  C9. For every entity, null and undefined fields included, the classification with
  fallback \<open>UNKNOWN\<close> is a key of the label table, so \<open>results2class\<close> returns
  \<open>results_\<close> followed by one of the nine labels (and then, at most, a space and the
  pulse token), never by the text of an undefined label.
\<close>

theorem results2class_defined_label:
  "getBuildOrStepResults e UNKNOWN \<in> dom intToResult \<and>
   (\<exists>label. label \<in> {''SUCCESS'', ''WARNINGS'', ''FAILURE'', ''SKIPPED'', ''EXCEPTION'',
        ''RETRY'', ''CANCELLED'', ''PENDING'', ''UNKNOWN''} \<and>
      (results2class e pulse = ''results_'' @ label \<or>
       (\<exists>p. pulse = Some p \<and> results2class e pulse = ''results_'' @ label @ '' '' @ p)))"
proof -
  obtain label where l: "intToResult (getBuildOrStepResults e UNKNOWN) = Some label"
    using getBuildOrStepResults_UNKNOWN_dom [of e] by blast
  then have "label \<in> ran intToResult"
    by (auto simp: ran_def)
  then have m: "label \<in> {''SUCCESS'', ''WARNINGS'', ''FAILURE'', ''SKIPPED'', ''EXCEPTION'',
        ''RETRY'', ''CANCELLED'', ''PENDING'', ''UNKNOWN''}"
    by (simp only: intToResult_ran)
  have "results2class e pulse = ''results_'' @ label \<or>
       (\<exists>p. pulse = Some p \<and> results2class e pulse = ''results_'' @ label @ '' '' @ p)"
    using l by (cases pulse) (auto simp add: Let_def simp del: getBuildOrStepResults.simps)
  with m getBuildOrStepResults_UNKNOWN_dom [of e] show ?thesis by blast
qed

text \<open>The same at concrete entities.\<close>

theorem results2class_defined_label_witness:
  "(getBuildOrStepResults
      (Some \<lparr>results = Undefined, complete = Undefined, started_at = Undefined\<rparr>)
      UNKNOWN \<in> dom intToResult \<and>
    (\<exists>label. label \<in> {''SUCCESS'', ''WARNINGS'', ''FAILURE'', ''SKIPPED'', ''EXCEPTION'',
        ''RETRY'', ''CANCELLED'', ''PENDING'', ''UNKNOWN''} \<and>
      (results2class
         (Some \<lparr>results = Undefined, complete = Undefined, started_at = Undefined\<rparr>)
         (Some ''p'') = ''results_'' @ label \<or>
       (\<exists>p. Some ''p'' = Some p \<and>
          results2class
            (Some \<lparr>results = Undefined, complete = Undefined, started_at = Undefined\<rparr>)
            (Some ''p'') = ''results_'' @ label @ '' '' @ p)))) \<and>
   results2class
     (Some \<lparr>results = Undefined, complete = Undefined, started_at = Undefined\<rparr>)
     (Some ''p'') = ''results_UNKNOWN''"
proof (rule conjI)
  show "getBuildOrStepResults
      (Some \<lparr>results = Undefined, complete = Undefined, started_at = Undefined\<rparr>)
      UNKNOWN \<in> dom intToResult \<and>
    (\<exists>label. label \<in> {''SUCCESS'', ''WARNINGS'', ''FAILURE'', ''SKIPPED'', ''EXCEPTION'',
        ''RETRY'', ''CANCELLED'', ''PENDING'', ''UNKNOWN''} \<and>
      (results2class
         (Some \<lparr>results = Undefined, complete = Undefined, started_at = Undefined\<rparr>)
         (Some ''p'') = ''results_'' @ label \<or>
       (\<exists>p. Some ''p'' = Some p \<and>
          results2class
            (Some \<lparr>results = Undefined, complete = Undefined, started_at = Undefined\<rparr>)
            (Some ''p'') = ''results_'' @ label @ '' '' @ p)))"
    by (rule results2class_defined_label)
  show "results2class
     (Some \<lparr>results = Undefined, complete = Undefined, started_at = Undefined\<rparr>)
     (Some ''p'') = ''results_UNKNOWN''"
    by (simp add: intToResult_def SUCCESS_def WARNINGS_def FAILURE_def SKIPPED_def
      EXCEPTION_def RETRY_def CANCELLED_def PENDING_def UNKNOWN_def)
qed

text \<open>
  C10. The in-progress branch needs \<open>complete\<close> to be the boolean \<open>false\<close>: an entity
  whose \<open>results\<close> is null, undefined or outside the table and whose \<open>complete\<close> is
  anything else gets the fallback, also when its start time is above 0; the result is
  \<open>PENDING\<close> only if the fallback itself is.
\<close>

theorem in_progress_requires_complete_false:
  fixes e :: "'a BuildOrStep_scheme"
  assumes "results e = Null \<or> results e = Undefined \<or>
      (\<exists>r. results e = Val r \<and> r \<notin> dom intToResult)"
    and "complete e \<noteq> Val False"
  shows "getBuildOrStepResults (Some e) fb = fb \<and>
    (fb \<noteq> PENDING \<longrightarrow> getBuildOrStepResults (Some e) fb \<noteq> PENDING)"
  using assms by (auto simp: dom_def)

text \<open>The same at concrete entities.\<close>

theorem in_progress_requires_complete_false_witness:
  "getBuildOrStepResults
     (Some \<lparr>results = Null, complete = Undefined, started_at = Val 5\<rparr>) UNKNOWN = UNKNOWN \<and>
   getBuildOrStepResults
     (Some \<lparr>results = Val 999, complete = Val True, started_at = Val 5\<rparr>) UNKNOWN = UNKNOWN"
  using
    in_progress_requires_complete_false
      [of "\<lparr>results = Null, complete = Undefined, started_at = Val 5\<rparr>" UNKNOWN]
    in_progress_requires_complete_false
      [of "\<lparr>results = Val 999, complete = Val True, started_at = Val 5\<rparr>" UNKNOWN]
  by (simp add: intToResult_dom del: getBuildOrStepResults.simps)

section \<open>The Build entity: update, constructor and toObject\<close>

lemma get_prop_set_prop:
  "get_prop (set_prop obj k v) k' = (if k' = k then v else get_prop obj k')"
  by (induction obj) (auto simp: get_prop_def)

lemma get_prop_Cons:
  "get_prop ((k, v) # obj) k' = (if k' = k then v else get_prop obj k')"
  by (simp add: get_prop_def)

lemma get_prop_Nil: "get_prop [] k = Undefined"
  by (simp add: get_prop_def)

lemma get_prop_defined: "get_prop obj k \<noteq> Undefined \<Longrightarrow> k \<in> set (map fst obj)"
  by (auto simp: get_prop_def split: option.splits dest!: map_of_SomeD intro: rev_image_eqI)

lemma get_prop_absent: "k \<notin> set (map fst obj) \<Longrightarrow> get_prop obj k = Undefined"
  using get_prop_defined by blast

lemma update_heap: "fst (update h this r) = fst (properties_or_empty h (get_prop r ''properties''))"
  by (simp add: update_def Let_def split_def)

lemma toObject_update:
  "toObject (snd (update h this r)) =
     [(''buildid'', get_prop r ''buildid''),
      (''number'', get_prop r ''number''),
      (''builderid'', get_prop r ''builderid''),
      (''buildrequestid'', get_prop r ''buildrequestid''),
      (''workerid'', get_prop r ''workerid''),
      (''masterid'', get_prop r ''masterid''),
      (''started_at'', get_prop r ''started_at''),
      (''complete_at'', get_prop r ''complete_at''),
      (''complete'', get_prop r ''complete''),
      (''state_string'', get_prop r ''state_string''),
      (''results'', get_prop r ''results''),
      (''properties'', snd (properties_or_empty h (get_prop r ''properties'')))]"
  by (simp add: update_def toObject_def Let_def split_def get_prop_set_prop)

lemma update_untracked:
  "k \<notin> set tracked_fields \<Longrightarrow> get_prop (snd (update h this r)) k = get_prop this k"
  by (simp add: update_def tracked_fields_def Let_def split_def get_prop_set_prop)

lemma deep_equal_refl: "deep_equal n h x x"
  by (cases n) simp_all

lemma is_number_defined: "is_number v \<Longrightarrow> v \<noteq> Undefined"
  by (cases v) auto

lemma is_boolean_defined: "is_boolean v \<Longrightarrow> v \<noteq> Undefined"
  by (cases v) auto

lemma is_string_defined: "is_string v \<Longrightarrow> v \<noteq> Undefined"
  by (cases v) auto

lemma is_object_Val: "is_object h v \<Longrightarrow> \<exists>a. v = Val (Ref a) \<and> a < length h"
  by (cases "(h, v)" rule: is_object.cases) auto

lemma map_fst_toObject: "map fst (toObject this) = tracked_fields"
  by (simp add: toObject_def tracked_fields_def)

lemma well_formed_raw_required:
  assumes "well_formed_raw h r"
  shows "''buildid'' \<in> set (map fst r)" "''number'' \<in> set (map fst r)"
    "''builderid'' \<in> set (map fst r)" "''buildrequestid'' \<in> set (map fst r)"
    "''workerid'' \<in> set (map fst r)"
    "''masterid'' \<in> set (map fst r)" "''started_at'' \<in> set (map fst r)"
    "''complete_at'' \<in> set (map fst r)"
    "''complete'' \<in> set (map fst r)" "''state_string'' \<in> set (map fst r)"
    "''results'' \<in> set (map fst r)"
proof -
  note wf = assms [unfolded well_formed_raw_def]
  from wf have "is_number (get_prop r ''buildid'')" by (elim conjE)
  then show "''buildid'' \<in> set (map fst r)"
    by (intro get_prop_defined is_number_defined)
  from wf have "is_number (get_prop r ''number'')" by (elim conjE)
  then show "''number'' \<in> set (map fst r)"
    by (intro get_prop_defined is_number_defined)
  from wf have "is_number (get_prop r ''builderid'')" by (elim conjE)
  then show "''builderid'' \<in> set (map fst r)"
    by (intro get_prop_defined is_number_defined)
  from wf show "''buildrequestid'' \<in> set (map fst r)" by (elim conjE)
  from wf have "is_number (get_prop r ''workerid'')" by (elim conjE)
  then show "''workerid'' \<in> set (map fst r)"
    by (intro get_prop_defined is_number_defined)
  from wf have "is_number (get_prop r ''masterid'')" by (elim conjE)
  then show "''masterid'' \<in> set (map fst r)"
    by (intro get_prop_defined is_number_defined)
  from wf have "is_number (get_prop r ''started_at'')" by (elim conjE)
  then show "''started_at'' \<in> set (map fst r)"
    by (intro get_prop_defined is_number_defined)
  from wf show "''complete_at'' \<in> set (map fst r)" by (elim conjE)
  from wf have "is_boolean (get_prop r ''complete'')" by (elim conjE)
  then show "''complete'' \<in> set (map fst r)"
    by (intro get_prop_defined is_boolean_defined)
  from wf have "is_string (get_prop r ''state_string'')" by (elim conjE)
  then show "''state_string'' \<in> set (map fst r)"
    by (intro get_prop_defined is_string_defined)
  from wf show "''results'' \<in> set (map fst r)" by (elim conjE)
qed

lemma toObject_reads:
  "k \<in> set tracked_fields \<Longrightarrow> get_prop (toObject this) k = get_prop this k"
  by (auto simp: toObject_def tracked_fields_def get_prop_Cons)

lemma well_formed_raw_keys:
  assumes "well_formed_raw h r" and "''properties'' \<in> set (map fst r)"
  shows "set (map fst r) = set tracked_fields"
proof
  show "set (map fst r) \<subseteq> set tracked_fields"
    using assms(1) unfolding well_formed_raw_def by (elim conjE)
  show "set tracked_fields \<subseteq> set (map fst r)"
    unfolding tracked_fields_def
    using well_formed_raw_required [OF assms(1)] assms(2) by simp
qed

lemma well_formed_raw_properties:
  assumes "well_formed_raw h r" and "''properties'' \<in> set (map fst r)"
  shows "\<exists>a. get_prop r ''properties'' = Val (Ref a) \<and> a < length h"
proof -
  from assms(1) have "if ''properties'' \<in> set (map fst r)
       then is_object h (get_prop r ''properties'') else True"
    unfolding well_formed_raw_def by (elim conjE)
  with assms(2) have "is_object h (get_prop r ''properties'')"
    by (simp only: if_True)
  then show ?thesis by (rule is_object_Val)
qed

lemma same_record_toObject:
  assumes keys: "set (map fst r) = set tracked_fields"
    and vals: "\<forall>k \<in> set tracked_fields. get_prop this k = get_prop r k"
  shows "same_record (deep_equal n h) (toObject this) r"
proof -
  have "\<forall>k \<in> set tracked_fields.
      deep_equal n h (get_prop (toObject this) k) (get_prop r k)"
  proof
    fix k assume k: "k \<in> set tracked_fields"
    with vals have "get_prop (toObject this) k = get_prop r k"
      by (simp only: toObject_reads)
    then show "deep_equal n h (get_prop (toObject this) k) (get_prop r k)"
      by (simp only: deep_equal_refl)
  qed
  then show ?thesis
    unfolding same_record_def map_fst_toObject keys list_all_iff by simp
qed

lemma update_reads:
  "k \<in> set tracked_fields \<Longrightarrow>
   get_prop (snd (update h this r)) k =
     (if k = ''properties'' then snd (properties_or_empty h (get_prop r ''properties''))
      else get_prop r k)"
  by (auto simp: tracked_fields_def update_def Let_def split_def get_prop_set_prop)

lemma properties_or_empty_Ref:
  "properties_or_empty h (Val v) = (h, Val v)"
  by simp

lemma properties_or_empty_absent:
  "v = Undefined \<or> v = Null \<Longrightarrow> properties_or_empty h v = (h @ [[]], Val (Ref (length h)))"
  by (auto simp: alloc_def)

text \<open>
  C2, as the code has it. For a raw record of the input shape, the constructor (which is
  \<open>update\<close> on the new instance) followed by \<open>toObject\<close> gives a record with exactly
  the tracked fields in their fixed order. When the record has its \<open>properties\<close>, the
  result is deep-equal to it, the heap is unchanged and \<open>properties\<close> is the very same
  reference. When \<open>properties\<close> is absent, the result has the record's eleven values and
  a \<open>properties\<close> that refers to a newly allocated empty object.
\<close>

theorem toObject_constructor_roundtrip:
  assumes "well_formed_raw h r"
  shows "constructor h base r = update h base r \<and>
    map fst (toObject (snd (constructor h base r))) = tracked_fields \<and>
    (''properties'' \<in> set (map fst r) \<longrightarrow>
       fst (constructor h base r) = h \<and>
       get_prop (toObject (snd (constructor h base r))) ''properties''
         = get_prop r ''properties'' \<and>
       same_record (deep_equal n h) (toObject (snd (constructor h base r))) r) \<and>
    (''properties'' \<notin> set (map fst r) \<longrightarrow>
       fst (constructor h base r) = h @ [[]] \<and>
       get_prop (toObject (snd (constructor h base r))) ''properties''
         = Val (Ref (length h)) \<and>
       (\<forall>k \<in> set tracked_fields. k \<noteq> ''properties'' \<longrightarrow>
          get_prop (toObject (snd (constructor h base r))) k = get_prop r k))"
proof (intro conjI impI)
  show "constructor h base r = update h base r"
    by (simp only: constructor_def)
  show "map fst (toObject (snd (constructor h base r))) = tracked_fields"
    by (rule map_fst_toObject)
next
  assume p: "''properties'' \<in> set (map fst r)"
  from well_formed_raw_properties [OF assms p]
  obtain a where a: "get_prop r ''properties'' = Val (Ref a)" by blast
  show "fst (constructor h base r) = h"
    by (simp only: constructor_def update_heap a properties_or_empty_Ref fst_conv)
  have reads: "\<forall>k \<in> set tracked_fields. get_prop (snd (update h base r)) k = get_prop r k"
  proof
    fix k assume "k \<in> set tracked_fields"
    then show "get_prop (snd (update h base r)) k = get_prop r k"
      by (simp add: update_reads a)
  qed
  have pin: "''properties'' \<in> set tracked_fields"
    by (simp add: tracked_fields_def)
  show "get_prop (toObject (snd (constructor h base r))) ''properties''
      = get_prop r ''properties''"
    using reads pin by (simp only: constructor_def toObject_reads)
  show "same_record (deep_equal n h) (toObject (snd (constructor h base r))) r"
    unfolding constructor_def
    by (rule same_record_toObject [OF well_formed_raw_keys [OF assms p] reads])
next
  assume p: "''properties'' \<notin> set (map fst r)"
  then have u: "get_prop r ''properties'' = Undefined"
    by (rule get_prop_absent)
  then have poe: "properties_or_empty h (get_prop r ''properties'')
      = (h @ [[]], Val (Ref (length h)))"
    by (simp add: alloc_def)
  show "fst (constructor h base r) = h @ [[]]"
    by (simp only: constructor_def update_heap poe fst_conv)
  have pin: "''properties'' \<in> set tracked_fields"
    by (simp add: tracked_fields_def)
  show "get_prop (toObject (snd (constructor h base r))) ''properties''
      = Val (Ref (length h))"
    using pin by (simp add: constructor_def toObject_reads update_reads poe)
  show "\<forall>k \<in> set tracked_fields. k \<noteq> ''properties'' \<longrightarrow>
      get_prop (toObject (snd (constructor h base r))) k = get_prop r k"
    by (simp add: constructor_def toObject_reads update_reads)
qed

lemma raw_finished_well_formed: "well_formed_raw [[]] raw_finished"
  by (simp add: well_formed_raw_def raw_finished_def tracked_fields_def get_prop_Cons
      get_prop_Nil)

lemma raw_without_properties_well_formed: "well_formed_raw [] raw_without_properties"
  by (simp add: well_formed_raw_def raw_without_properties_def tracked_fields_def
      get_prop_Cons get_prop_Nil)

lemma raw_unfinished_well_formed: "well_formed_raw [[]] raw_unfinished_with_results"
  by (simp add: well_formed_raw_def raw_unfinished_with_results_def tracked_fields_def
      get_prop_Cons get_prop_Nil)

text \<open>The same at a finished build with an empty properties object, and at a record without properties.\<close>

theorem toObject_constructor_roundtrip_witness:
  "well_formed_raw [[]] raw_finished \<and>
   fst (constructor [[]] [] raw_finished) = [[]] \<and>
   toObject (snd (constructor [[]] [] raw_finished)) = raw_finished \<and>
   same_record (deep_equal 2 [[]]) (toObject (snd (constructor [[]] [] raw_finished)))
     raw_finished \<and>
   well_formed_raw [] raw_without_properties \<and>
   fst (constructor [] [] raw_without_properties) = [[]] \<and>
   get_prop (toObject (snd (constructor [] [] raw_without_properties))) ''properties''
     = Val (Ref 0)"
proof -
  have p: "''properties'' \<in> set (map fst raw_finished)"
    by (simp add: raw_finished_def)
  have q: "''properties'' \<notin> set (map fst raw_without_properties)"
    by (simp add: raw_without_properties_def)
  have t: "toObject (snd (constructor [[]] [] raw_finished)) = raw_finished"
    by (simp add: constructor_def toObject_update raw_finished_def get_prop_Cons)
  from toObject_constructor_roundtrip
    [OF raw_finished_well_formed, where base = "[]" and n = 2] p
  have a: "fst (constructor [[]] [] raw_finished) = [[]] \<and>
      same_record (deep_equal 2 [[]]) (toObject (snd (constructor [[]] [] raw_finished)))
        raw_finished"
    by blast
  from toObject_constructor_roundtrip
    [OF raw_without_properties_well_formed, where base = "[]" and n = 2] q
  have b: "fst (constructor [] [] raw_without_properties) = [] @ [[]] \<and>
      get_prop (toObject (snd (constructor [] [] raw_without_properties))) ''properties''
        = Val (Ref (length ([] :: heap)))"
    by blast
  from a b raw_finished_well_formed raw_without_properties_well_formed t
  show ?thesis by simp
qed

text \<open>
  C2 as stated fails for a record of the input shape that leaves the optional
  \<open>properties\<close> out: the result has a \<open>properties\<close> key the input does not have.
\<close>

theorem toObject_constructor_roundtrip_counterexample:
  "well_formed_raw [] raw_without_properties \<and>
   \<not> same_record (deep_equal 2 (fst (constructor [] [] raw_without_properties)))
       (toObject (snd (constructor [] [] raw_without_properties)))
       raw_without_properties"
proof -
  have "set (map fst (toObject (snd (constructor [] [] raw_without_properties))))
      \<noteq> set (map fst raw_without_properties)"
  proof
    assume e: "set (map fst (toObject (snd (constructor [] [] raw_without_properties))))
      = set (map fst raw_without_properties)"
    have "''properties'' \<in> set tracked_fields"
      by (simp add: tracked_fields_def)
    then have "''properties'' \<in> set (map fst raw_without_properties)"
      by (simp only: e [symmetric] map_fst_toObject)
    then show False
      by (simp add: raw_without_properties_def)
  qed
  then have "\<not> same_record (deep_equal 2 (fst (constructor [] [] raw_without_properties)))
       (toObject (snd (constructor [] [] raw_without_properties)))
       raw_without_properties"
    by (simp only: same_record_def) blast
  with raw_without_properties_well_formed show ?thesis by (rule conjI)
qed

lemma data_model_invariant_update:
  "data_model_invariant (snd (update h this r)) = data_model_invariant r"
proof -
  have "''complete_at'' \<in> set tracked_fields" "''complete'' \<in> set tracked_fields"
    "''results'' \<in> set tracked_fields"
    by (simp_all add: tracked_fields_def)
  then have "get_prop (snd (update h this r)) ''complete_at'' = get_prop r ''complete_at''"
    "get_prop (snd (update h this r)) ''complete'' = get_prop r ''complete''"
    "get_prop (snd (update h this r)) ''results'' = get_prop r ''results''"
    by (simp_all add: update_reads)
  then show ?thesis
    by (simp only: data_model_invariant_def)
qed

lemma update_properties_default:
  assumes "get_prop r ''properties'' = Undefined \<or> get_prop r ''properties'' = Null"
  shows "get_prop (snd (update h this r)) ''properties'' = Val (Ref (length h))"
    and "fst (update h this r) = h @ [[]]"
proof -
  have poe: "properties_or_empty h (get_prop r ''properties'')
      = (h @ [[]], Val (Ref (length h)))"
    using assms by (rule properties_or_empty_absent)
  have pin: "''properties'' \<in> set tracked_fields"
    by (simp add: tracked_fields_def)
  show "get_prop (snd (update h this r)) ''properties'' = Val (Ref (length h))"
    using pin by (simp add: update_reads poe)
  show "fst (update h this r) = h @ [[]]"
    by (simp only: update_heap poe fst_conv)
qed

lemma update_properties_given:
  assumes "get_prop r ''properties'' \<noteq> Undefined" and "get_prop r ''properties'' \<noteq> Null"
  shows "get_prop (snd (update h this r)) ''properties'' = get_prop r ''properties''"
    and "fst (update h this r) = h"
proof -
  from assms obtain v where v: "get_prop r ''properties'' = Val v"
    by (cases "get_prop r ''properties''") auto
  have pin: "''properties'' \<in> set tracked_fields"
    by (simp add: tracked_fields_def)
  show "get_prop (snd (update h this r)) ''properties'' = get_prop r ''properties''"
    using pin by (simp add: update_reads v)
  show "fst (update h this r) = h"
    by (simp only: update_heap v properties_or_empty_Ref fst_conv)
qed

text \<open>
  C6, as the code has it. \<open>update\<close> and the constructor validate nothing: \<open>complete\<close>,
  \<open>complete_at\<close> and \<open>results\<close> are copied, so the instance satisfies the data-model
  invariant exactly when the raw record does. \<open>properties\<close> is a newly allocated empty
  object when the record has none (or has null), and the record's own value otherwise.
\<close>

theorem update_copies_invariant:
  "data_model_invariant (snd (update h this r)) = data_model_invariant r \<and>
   data_model_invariant (snd (constructor h base r)) = data_model_invariant r \<and>
   (get_prop r ''properties'' = Undefined \<or> get_prop r ''properties'' = Null \<longrightarrow>
      get_prop (snd (update h this r)) ''properties'' = Val (Ref (length h)) \<and>
      fst (update h this r) = h @ [[]]) \<and>
   (get_prop r ''properties'' \<noteq> Undefined \<and> get_prop r ''properties'' \<noteq> Null \<longrightarrow>
      get_prop (snd (update h this r)) ''properties'' = get_prop r ''properties'' \<and>
      fst (update h this r) = h)"
  using data_model_invariant_update [of h this r] data_model_invariant_update [of h base r]
    update_properties_default [of r h this] update_properties_given [of r h this]
  by (simp only: constructor_def) blast

text \<open>The same at the finished build and at the record without properties.\<close>

theorem update_copies_invariant_witness:
  "data_model_invariant raw_finished \<and>
   data_model_invariant (snd (update [[]] [] raw_finished)) \<and>
   get_prop (snd (update [[]] [] raw_finished)) ''properties'' = Val (Ref 0) \<and>
   get_prop (snd (update [] [] raw_without_properties)) ''properties'' = Val (Ref 0) \<and>
   fst (update [] [] raw_without_properties) = [[]]"
proof -
  have i: "data_model_invariant raw_finished"
    by (simp add: data_model_invariant_def raw_finished_def get_prop_Cons)
  have p: "get_prop raw_finished ''properties'' = Val (Ref 0)"
    by (simp add: raw_finished_def get_prop_Cons)
  have q: "get_prop raw_without_properties ''properties'' = Undefined"
    by (simp add: raw_without_properties_def get_prop_Cons get_prop_Nil)
  from update_copies_invariant [of "[[]]" "[]" raw_finished "[]"] i p
  have a: "data_model_invariant (snd (update [[]] [] raw_finished)) \<and>
      get_prop (snd (update [[]] [] raw_finished)) ''properties'' = Val (Ref 0)"
    by simp
  from update_copies_invariant [of "[]" "[]" raw_without_properties "[]"] q
  have b: "get_prop (snd (update [] [] raw_without_properties)) ''properties''
        = Val (Ref 0) \<and>
      fst (update [] [] raw_without_properties) = [[]]"
    by simp
  from i a b show ?thesis by blast
qed

text \<open>
  C6 as stated fails: a record of the input shape with \<open>complete = false\<close> and a result
  code gives a Build that breaks the invariant.
\<close>

theorem data_model_invariant_counterexample:
  "well_formed_raw [[]] raw_unfinished_with_results \<and>
   \<not> data_model_invariant (snd (constructor [[]] [] raw_unfinished_with_results))"
proof -
  have "\<not> data_model_invariant raw_unfinished_with_results"
    by (simp add: data_model_invariant_def raw_unfinished_with_results_def get_prop_Cons)
  then have "\<not> data_model_invariant (snd (constructor [[]] [] raw_unfinished_with_results))"
    by (simp add: constructor_def data_model_invariant_update)
  with raw_unfinished_well_formed show ?thesis by (rule conjI)
qed

lemma map_of_set_prop: "map_of (set_prop obj k v) = (map_of obj)(k \<mapsto> v)"
  by (induction obj) auto

lemma set_prop_same: "map_of obj k = Some v \<Longrightarrow> set_prop obj k v = obj"
  by (induction obj) (auto split: if_splits)

lemma map_of_update:
  "k \<in> set tracked_fields \<Longrightarrow>
   map_of (snd (update h this r)) k =
     Some (if k = ''properties'' then snd (properties_or_empty h (get_prop r ''properties''))
           else get_prop r k)"
  by (auto simp: tracked_fields_def update_def Let_def split_def map_of_set_prop)

lemma set_prop_update_same:
  assumes "k \<in> set tracked_fields" and "k \<noteq> ''properties''"
  shows "set_prop (snd (update h this r)) k (get_prop r k) = snd (update h this r)"
  using map_of_update [OF assms(1), of h this r] assms(2)
  by (simp add: set_prop_same)

lemma update_twice_same:
  assumes "get_prop r ''properties'' = Val v"
  shows "update h (snd (update h this r)) r = (h, snd (update h this r))"
proof -
  define t where "t = snd (update h this r)"
  have s: "set_prop t ''buildid'' (get_prop r ''buildid'') = t"
    "set_prop t ''number'' (get_prop r ''number'') = t"
    "set_prop t ''builderid'' (get_prop r ''builderid'') = t"
    "set_prop t ''buildrequestid'' (get_prop r ''buildrequestid'') = t"
    "set_prop t ''workerid'' (get_prop r ''workerid'') = t"
    "set_prop t ''masterid'' (get_prop r ''masterid'') = t"
    "set_prop t ''started_at'' (get_prop r ''started_at'') = t"
    "set_prop t ''complete_at'' (get_prop r ''complete_at'') = t"
    "set_prop t ''complete'' (get_prop r ''complete'') = t"
    "set_prop t ''results'' (get_prop r ''results'') = t"
    "set_prop t ''state_string'' (get_prop r ''state_string'') = t"
    unfolding t_def by (rule set_prop_update_same; simp add: tracked_fields_def)+
  have "''properties'' \<in> set tracked_fields"
    by (simp add: tracked_fields_def)
  from map_of_update [OF this, of h this r]
  have "map_of t ''properties'' = Some (Val v)"
    by (simp add: t_def assms)
  then have p: "set_prop t ''properties'' (Val v) = t"
    by (rule set_prop_same)
  have "update h t r = (h, t)"
    by (simp add: update_def Let_def s assms p)
  then show ?thesis by (simp only: t_def)
qed

lemma update_reads_plain:
  assumes "k \<in> set tracked_fields" and "k \<noteq> ''properties''"
  shows "get_prop (snd (update h this r)) k = get_prop r k"
  using assms by (simp add: update_reads)

lemma deep_equal_fresh_empty:
  "deep_equal 1 (h @ [[], []]) (Val (Ref (Suc (length h)))) (Val (Ref (length h)))"
  by (simp add: same_record_def nth_append)

lemma update_twice_properties:
  "deep_equal 1 (fst (update (fst (update h this r)) (snd (update h this r)) r))
     (get_prop (snd (update (fst (update h this r)) (snd (update h this r)) r)) ''properties'')
     (get_prop (snd (update h this r)) ''properties'')"
proof (cases "get_prop r ''properties'' = Undefined \<or> get_prop r ''properties'' = Null")
  case True
  note a = update_properties_default [OF True, of h this]
  note b = update_properties_default [OF True, of "h @ [[]]" "snd (update h this r)"]
  show ?thesis
    unfolding a b using deep_equal_fresh_empty [of h] by simp
next
  case False
  then have n: "get_prop r ''properties'' \<noteq> Undefined" "get_prop r ''properties'' \<noteq> Null"
    by blast+
  note a = update_properties_given [OF n, of h this]
  note b = update_properties_given [OF n, of h "snd (update h this r)"]
  show ?thesis
    unfolding a b by (rule deep_equal_refl)
qed

lemma update_twice_same_record:
  "same_record (deep_equal 1 (fst (update (fst (update h this r)) (snd (update h this r)) r)))
     (toObject (snd (update (fst (update h this r)) (snd (update h this r)) r)))
     (toObject (snd (update h this r)))"
proof -
  let ?h1 = "fst (update h this r)" and ?t1 = "snd (update h this r)"
  let ?h2 = "fst (update ?h1 ?t1 r)" and ?t2 = "snd (update ?h1 ?t1 r)"
  have "deep_equal 1 ?h2 (get_prop (toObject ?t2) k) (get_prop (toObject ?t1) k)"
    if k: "k \<in> set tracked_fields" for k
  proof (cases "k = ''properties''")
    case True
    with k update_twice_properties [of h this r] show ?thesis
      by (simp only: toObject_reads)
  next
    case False
    with k have "get_prop ?t2 k = get_prop ?t1 k"
      by (simp add: update_reads_plain)
    with k show ?thesis
      by (simp only: toObject_reads deep_equal_refl)
  qed
  then show ?thesis
    unfolding same_record_def map_fst_toObject list_all_iff by simp
qed

text \<open>
  C3. \<open>update\<close> is an idempotent full replacement. After \<open>update(r1)\<close>, a second
  \<open>update(r1)\<close> leaves every tracked field as it was: the eleven copied fields are
  equal, \<open>properties\<close> is deep-equal (the same reference when \<open>r1\<close> has one, where
  heap and instance are then unchanged altogether; another new empty object when it has
  none). After \<open>update(r1)\<close>, \<open>update(r2)\<close> leaves exactly the values of \<open>r2\<close> in
  every tracked field, \<open>properties\<close> being a new empty object when \<open>r2\<close> has none; the
  tracked state does not depend on what the instance held before.
\<close>

theorem update_idempotent_full_replacement:
  assumes u1: "update h this r1 = (h1, t1)"
    and u2: "update h1 t1 r1 = (h2, t2)"
    and u3: "update h1 t1 r2 = (h3, t3)"
  shows "(\<forall>k \<in> set tracked_fields. k \<noteq> ''properties'' \<longrightarrow> get_prop t2 k = get_prop t1 k) \<and>
    same_record (deep_equal 1 h2) (toObject t2) (toObject t1) \<and>
    (get_prop r1 ''properties'' \<noteq> Undefined \<and> get_prop r1 ''properties'' \<noteq> Null \<longrightarrow>
       h2 = h1 \<and> t2 = t1) \<and>
    (\<forall>k \<in> set tracked_fields. k \<noteq> ''properties'' \<longrightarrow> get_prop t3 k = get_prop r2 k) \<and>
    (get_prop r2 ''properties'' \<noteq> Undefined \<and> get_prop r2 ''properties'' \<noteq> Null \<longrightarrow>
       get_prop t3 ''properties'' = get_prop r2 ''properties'' \<and> h3 = h1) \<and>
    (get_prop r2 ''properties'' = Undefined \<or> get_prop r2 ''properties'' = Null \<longrightarrow>
       get_prop t3 ''properties'' = Val (Ref (length h1)) \<and> h3 = h1 @ [[]]) \<and>
    toObject t3 = toObject (snd (update h1 other r2))"
proof -
  from u1 have e1: "h1 = fst (update h this r1)" "t1 = snd (update h this r1)"
    by simp_all
  from u2 have e2: "h2 = fst (update h1 t1 r1)" "t2 = snd (update h1 t1 r1)"
    by simp_all
  from u3 have e3: "h3 = fst (update h1 t1 r2)" "t3 = snd (update h1 t1 r2)"
    by simp_all
  have a: "\<forall>k \<in> set tracked_fields. k \<noteq> ''properties'' \<longrightarrow> get_prop t2 k = get_prop t1 k"
    unfolding e2 e1 by (simp add: update_reads_plain)
  have b: "same_record (deep_equal 1 h2) (toObject t2) (toObject t1)"
    unfolding e2 unfolding e1 by (rule update_twice_same_record)
  have c: "h2 = h1 \<and> t2 = t1"
    if "get_prop r1 ''properties'' \<noteq> Undefined \<and> get_prop r1 ''properties'' \<noteq> Null"
  proof -
    from that obtain v where v: "get_prop r1 ''properties'' = Val v"
      by (cases "get_prop r1 ''properties''") auto
    then have hh: "h1 = h"
      unfolding e1 by (simp add: update_heap)
    have tt: "snd (update h this r1) = t1"
      by (simp only: e1(2))
    have "(h2, t2) = update h1 t1 r1"
      by (simp only: u2)
    also have "\<dots> = update h (snd (update h this r1)) r1"
      by (simp only: hh tt)
    also have "\<dots> = (h, snd (update h this r1))"
      by (rule update_twice_same [OF v])
    also have "\<dots> = (h1, t1)"
      by (simp only: hh tt)
    finally show ?thesis by simp
  qed
  have d: "\<forall>k \<in> set tracked_fields. k \<noteq> ''properties'' \<longrightarrow> get_prop t3 k = get_prop r2 k"
    unfolding e3 by (simp add: update_reads_plain)
  have f: "get_prop t3 ''properties'' = get_prop r2 ''properties'' \<and> h3 = h1"
    if "get_prop r2 ''properties'' \<noteq> Undefined \<and> get_prop r2 ''properties'' \<noteq> Null"
    unfolding e3 using that by (simp add: update_properties_given)
  have g: "get_prop t3 ''properties'' = Val (Ref (length h1)) \<and> h3 = h1 @ [[]]"
    if "get_prop r2 ''properties'' = Undefined \<or> get_prop r2 ''properties'' = Null"
    unfolding e3 using that by (simp add: update_properties_default)
  have i: "toObject t3 = toObject (snd (update h1 other r2))"
    unfolding e3 by (simp only: toObject_update)
  from a b c d f g i show ?thesis by blast
qed

text \<open>The same for the finished build followed by itself and by the record without properties.\<close>

theorem update_idempotent_full_replacement_witness:
  "update [[]] (snd (update [[]] [] raw_finished)) raw_finished
     = ([[]], snd (update [[]] [] raw_finished)) \<and>
   toObject (snd (update [[]] (snd (update [[]] [] raw_finished)) raw_without_properties))
     = raw_without_properties @ [(''properties'', Val (Ref 1))] \<and>
   fst (update [[]] (snd (update [[]] [] raw_finished)) raw_without_properties)
     = [[], []]"
proof -
  let ?t1 = "snd (update [[]] [] raw_finished)"
  have p: "get_prop raw_finished ''properties'' \<noteq> Undefined \<and>
      get_prop raw_finished ''properties'' \<noteq> Null"
    by (simp add: raw_finished_def get_prop_Cons)
  have q: "get_prop raw_without_properties ''properties'' = Undefined \<or>
      get_prop raw_without_properties ''properties'' = Null"
    by (simp add: raw_without_properties_def get_prop_Cons get_prop_Nil)
  from p have u1: "update [[]] [] raw_finished = ([[]], ?t1)"
    by (simp add: prod_eq_iff update_properties_given)
  have u2: "update [[]] ?t1 raw_finished
      = (fst (update [[]] ?t1 raw_finished), snd (update [[]] ?t1 raw_finished))"
    by simp
  have u3: "update [[]] ?t1 raw_without_properties
      = (fst (update [[]] ?t1 raw_without_properties),
         snd (update [[]] ?t1 raw_without_properties))"
    by simp
  note inst = update_idempotent_full_replacement [OF u1 u2 u3, where other = "[]"]
  from inst p have a: "fst (update [[]] ?t1 raw_finished) = [[]] \<and>
      snd (update [[]] ?t1 raw_finished) = ?t1"
    by blast
  from inst q have b: "fst (update [[]] ?t1 raw_without_properties) = [[]] @ [[]]"
    by blast
  from inst have c: "toObject (snd (update [[]] ?t1 raw_without_properties))
      = toObject (snd (update [[]] [] raw_without_properties))"
    by blast
  have d: "toObject (snd (update [[]] [] raw_without_properties))
      = raw_without_properties @ [(''properties'', Val (Ref 1))]"
    by (simp add: toObject_update raw_without_properties_def get_prop_Cons get_prop_Nil
        alloc_def)
  from a b c d show ?thesis
    by (simp add: prod_eq_iff)
qed

end
